theory Spec2Isabelle
  imports Main
begin

section \<open>Values\<close>

text \<open>
  The values the converters of \<^verbatim>\<open>utils/conversion\<close> walk over: the leaves
  (\<^verbatim>\<open>null\<close>, booleans, numbers, strings), arrays, and plain objects. Numbers are
  never inspected by the code, so their type is a parameter. An object is the list of
  its own enumerable properties in the order \<^verbatim>\<open>Object.keys\<close> enumerates them; a
  JavaScript object has each key once, which is the predicate \<open>js_value\<close> below.

  A key is a string of code units; a \<^typ>\<open>char\<close> stands for the code unit of the
  same number, so the model covers keys over the code points 0 to 255.
\<close>

datatype 'n json =
    JNull
  | JBool bool
  | JNum 'n
  | JStr string
  | JArr "'n json list"
  | JObj "(string \<times> 'n json) list"

fun js_value :: "'n json \<Rightarrow> bool" where
  "js_value (JArr vs) = list_all js_value vs"
| "js_value (JObj kvs) = (distinct (map fst kvs) \<and> list_all (\<lambda>kv. js_value (snd kv)) kvs)"
| "js_value _ = True"

section \<open>Key transforms\<close>

definition is_AZ :: "char \<Rightarrow> bool" where
  "is_AZ c = (65 \<le> (of_char c :: nat) \<and> (of_char c :: nat) \<le> 90)"

definition is_az :: "char \<Rightarrow> bool" where
  "is_az c = (97 \<le> (of_char c :: nat) \<and> (of_char c :: nat) \<le> 122)"

definition is_digit :: "char \<Rightarrow> bool" where
  "is_digit c = (48 \<le> (of_char c :: nat) \<and> (of_char c :: nat) \<le> 57)"

text \<open>
  \<^verbatim>\<open>String.prototype.toLowerCase\<close> on one code unit below 256: the letters A to Z
  and the capital letters of the upper half (192 to 222, the multiplication sign 215
  apart) move up by 32, everything else stays.
\<close>

definition toLowerCase_char :: "char \<Rightarrow> char" where
  "toLowerCase_char c =
     (let n = (of_char c :: nat) in
      if (65 \<le> n \<and> n \<le> 90) \<or> (192 \<le> n \<and> n \<le> 222 \<and> n \<noteq> 215)
      then char_of (n + 32) else c)"

definition toLowerCase :: "string \<Rightarrow> string" where
  "toLowerCase s = map toLowerCase_char s"

text \<open>\<^verbatim>\<open>letter.toUpperCase()\<close>, applied by the source to a letter a to z only.\<close>

definition toUpperCase_char :: "char \<Rightarrow> char" where
  "toUpperCase_char c = (if is_az c then char_of ((of_char c :: nat) - 32) else c)"

text \<open>
  \<^verbatim>\<open>key.replace(/([A-Z])/g, '_$1')\<close>: every capital letter A to Z gets an
  underscore in front of it.
\<close>

fun replace_AZ :: "string \<Rightarrow> string" where
  "replace_AZ [] = []"
| "replace_AZ (c # cs) = (if is_AZ c then CHR ''_'' # c # replace_AZ cs else c # replace_AZ cs)"

text \<open>\<^verbatim>\<open>const snakeKey = key.replace(/([A-Z])/g, '_$1').toLowerCase();\<close>\<close>

definition snakeKey :: "string \<Rightarrow> string" where
  "snakeKey key = toLowerCase (replace_AZ key)"

text \<open>
  \<^verbatim>\<open>key.replace(/_([a-z])/g, (match, letter) => letter.toUpperCase())\<close>: the
  scan goes left to right; an underscore followed by a letter a to z is a match, replaced
  by the capital of that letter, and the scan goes on after the letter.
\<close>

fun camelKey :: "string \<Rightarrow> string" where
  "camelKey [] = []"
| "camelKey [c] = [c]"
| "camelKey (c # d # cs) =
     (if c = CHR ''_'' \<and> is_az d then toUpperCase_char d # camelKey cs
      else c # camelKey (d # cs))"

section \<open>Property assignment\<close>

text \<open>
  The object a converter builds begins as the literal \<^verbatim>\<open>{}\<close>. The model keeps its own
  properties, in order, and whether \<^verbatim>\<open>Object.prototype\<close> is on its prototype chain.

  \<^verbatim>\<open>result[key] = value\<close>: an own property of that name keeps its place and takes the
  new value, a new name goes to the end. The name \<^verbatim>\<open>__proto__\<close> is different while
  \<^verbatim>\<open>Object.prototype\<close> is on the chain: the assignment reaches the accessor inherited
  from there, which creates no own property; it ignores a number, a string or a boolean,
  and makes \<^verbatim>\<open>null\<close>, an array or an object the new prototype. After \<^verbatim>\<open>null\<close>, or
  an object whose own chain has lost \<^verbatim>\<open>Object.prototype\<close>, the accessor is out of
  reach and \<^verbatim>\<open>__proto__\<close> is a name like any other.
\<close>

fun put_own :: "(string \<times> 'v) list \<Rightarrow> string \<Rightarrow> 'v \<Rightarrow> (string \<times> 'v) list" where
  "put_own [] k v = [(k, v)]"
| "put_own (p # ps) k v = (if fst p = k then (k, v) # ps else p # put_own ps k v)"

type_synonym 'n built = "(string \<times> 'n json) list \<times> bool"

fun assign :: "'n built \<Rightarrow> string \<Rightarrow> 'n json \<times> bool \<Rightarrow> 'n built" where
  "assign (own, chain) k (v, v_chain) =
     (if k = ''__proto__'' \<and> chain then
        (case v of
           JNull \<Rightarrow> (own, False)
         | JArr vs \<Rightarrow> (own, v_chain)
         | JObj kvs \<Rightarrow> (own, v_chain)
         | _ \<Rightarrow> (own, chain))
      else (put_own own k v, chain))"

section \<open>The converters\<close>

text \<open>
  \<^verbatim>\<open>toSnakeCase\<close> and \<^verbatim>\<open>toCamelCase\<close>: an array is mapped element by element,
  an object is rebuilt by a \<^verbatim>\<open>reduce\<close> over its keys that starts from \<^verbatim>\<open>{}\<close>
  and assigns the converted value under the converted key, anything else is returned as
  it is. The functions \<open>toSnakeCase_chain\<close> and \<open>toCamelCase_chain\<close> return, with the
  value, whether \<^verbatim>\<open>Object.prototype\<close> is on its prototype chain; the converters return
  the value.
\<close>

fun toSnakeCase_chain :: "'n json \<Rightarrow> 'n json \<times> bool" where
  "toSnakeCase_chain (JArr vs) = (JArr (map (\<lambda>v. fst (toSnakeCase_chain v)) vs), True)"
| "toSnakeCase_chain (JObj kvs) =
     (case foldl (\<lambda>result kv. assign result (snakeKey (fst kv)) (toSnakeCase_chain (snd kv)))
             ([], True) kvs of
        (own, chain) \<Rightarrow> (JObj own, chain))"
| "toSnakeCase_chain v = (v, True)"

definition toSnakeCase :: "'n json \<Rightarrow> 'n json" where
  "toSnakeCase obj = fst (toSnakeCase_chain obj)"

fun toCamelCase_chain :: "'n json \<Rightarrow> 'n json \<times> bool" where
  "toCamelCase_chain (JArr vs) = (JArr (map (\<lambda>item. fst (toCamelCase_chain item)) vs), True)"
| "toCamelCase_chain (JObj kvs) =
     (case foldl (\<lambda>acc kv. assign acc (camelKey (fst kv)) (toCamelCase_chain (snd kv)))
             ([], True) kvs of
        (own, chain) \<Rightarrow> (JObj own, chain))"
| "toCamelCase_chain v = (v, True)"

definition toCamelCase :: "'n json \<Rightarrow> 'n json" where
  "toCamelCase data = fst (toCamelCase_chain data)"

section \<open>What the specification asks of the converters\<close>

text \<open>
  The specification's converter: the same shape and the same leaves, with every key of
  every object renamed by the key transform \<open>f\<close>. This definition follows the words
  of the specification, not the source; the theorems compare the two.
\<close>

fun rename_keys :: "(string \<Rightarrow> string) \<Rightarrow> 'n json \<Rightarrow> 'n json" where
  "rename_keys f (JArr vs) = JArr (map (rename_keys f) vs)"
| "rename_keys f (JObj kvs) = JObj (map (\<lambda>kv. (f (fst kv), rename_keys f (snd kv))) kvs)"
| "rename_keys f v = v"

text \<open>Every key of every object of a value, at any depth, satisfies \<open>P\<close>.\<close>

fun all_keys :: "(string \<Rightarrow> bool) \<Rightarrow> 'n json \<Rightarrow> bool" where
  "all_keys P (JArr vs) = list_all (all_keys P) vs"
| "all_keys P (JObj kvs) = list_all (\<lambda>kv. P (fst kv) \<and> all_keys P (snd kv)) kvs"
| "all_keys P v = True"

text \<open>
  The two naming conventions. A key of the concatenated convention (camelCase) is made of
  letters and digits only, with no separator. A key of the separator convention
  (snake_case) is made of lower-case letters, digits and underscores, and does not begin
  with an underscore.
\<close>

definition concatenated_key :: "string \<Rightarrow> bool" where
  "concatenated_key k = list_all (\<lambda>c. is_az c \<or> is_AZ c \<or> is_digit c) k"

definition separated_key :: "string \<Rightarrow> bool" where
  "separated_key k =
     (list_all (\<lambda>c. is_az c \<or> is_digit c \<or> c = CHR ''_'') k \<and>
      (case k of [] \<Rightarrow> True | c # cs \<Rightarrow> c \<noteq> CHR ''_''))"

text \<open>
  Within every object of a value, the renamed keys are pairwise different
  (\<open>no_key_clash\<close>), and none of them is \<^verbatim>\<open>__proto__\<close> (\<open>no_proto_key\<close>).
\<close>

fun no_key_clash :: "(string \<Rightarrow> string) \<Rightarrow> 'n json \<Rightarrow> bool" where
  "no_key_clash f (JArr vs) = list_all (no_key_clash f) vs"
| "no_key_clash f (JObj kvs) =
     (distinct (map (\<lambda>kv. f (fst kv)) kvs) \<and> list_all (\<lambda>kv. no_key_clash f (snd kv)) kvs)"
| "no_key_clash f v = True"

definition no_proto_key :: "(string \<Rightarrow> string) \<Rightarrow> 'n json \<Rightarrow> bool" where
  "no_proto_key f v = all_keys (\<lambda>k. f k \<noteq> ''__proto__'') v"

text \<open>Reading an own property of a value; a value that is no object has none.\<close>

fun own_property :: "'n json \<Rightarrow> string \<Rightarrow> 'n json option" where
  "own_property (JObj kvs) k = map_of kvs k"
| "own_property v k = None"

section \<open>Exceptions\<close>

text \<open>A thrown exception: the name of its class and its message.\<close>

datatype exn = Exn string string

abbreviation Error :: "string \<Rightarrow> exn" where
  "Error msg \<equiv> Exn ''Error'' msg"

section \<open>The webhook dispatcher\<close>

text \<open>
  The keys of \<^verbatim>\<open>EventTypeMapping\<close>: the six event types, and the strings they are.
  They are the type of the first parameter of \<^verbatim>\<open>registerWebhookHandler\<close>.
\<close>

datatype event_type =
    Payment_intent_succeeded
  | Payment_intent_failed
  | Subscription_create
  | Subscription_past_due
  | Subscription_paused
  | Subscription_cancel

fun type_string :: "event_type \<Rightarrow> string" where
  "type_string Payment_intent_succeeded = ''payment_intent.succeeded''"
| "type_string Payment_intent_failed = ''payment_intent.failed''"
| "type_string Subscription_create = ''subscription.create''"
| "type_string Subscription_past_due = ''subscription.past_due''"
| "type_string Subscription_paused = ''subscription.paused''"
| "type_string Subscription_cancel = ''subscription.cancel''"

text \<open>
  An event as \<^verbatim>\<open>handleWebhookEvent\<close> receives it: its \<^verbatim>\<open>eventType\<close> and its other
  fields. The declared type of \<^verbatim>\<open>eventType\<close> is one of the six strings above, but the
  event is the parsed payload, which \<^verbatim>\<open>verifySvixSignature\<close> casts to that type without
  looking at it: at run time \<^verbatim>\<open>eventType\<close> is any string.
\<close>

record 'p event =
  eventType :: string
  details :: 'p

text \<open>
  What a handler can touch: the console, as the list of the lines logged (a label and
  the event), and whatever else the caller's handlers use (the record's extension).
  A handler takes the event and the world and returns the world it leaves, with the
  exception it threw if it threw one.
\<close>

record 'p world =
  console :: "(string \<times> 'p event) list"

type_synonym ('p, 'z) handler =
  "'p event \<Rightarrow> ('p, 'z) world_scheme \<Rightarrow> exn option \<times> ('p, 'z) world_scheme"

text \<open>The registry: the own properties of the object \<^verbatim>\<open>userHandlers\<close>.\<close>

type_synonym ('p, 'z) registry = "string \<Rightarrow> ('p, 'z) handler option"

text \<open>\<^verbatim>\<open>(event) => { console.log(label, event); }\<close>\<close>

definition console_log :: "string \<Rightarrow> ('p, 'z) handler" where
  "console_log label event w = (None, w\<lparr>console := console w @ [(label, event)]\<rparr>)"

text \<open>The initial value of the module's \<^verbatim>\<open>userHandlers\<close>.\<close>

definition userHandlers :: "('p, 'z) registry" where
  "userHandlers =
     [''payment_intent.succeeded'' \<mapsto> console_log ''Default PaymentIntentSucceeded Handler:'',
      ''payment_intent.failed'' \<mapsto> console_log ''Default PaymentIntentFailed Handler:'',
      ''subscription.create'' \<mapsto> console_log ''Default SubscriptionCreate Handler:'',
      ''subscription.past_due'' \<mapsto> console_log ''Default SubscriptionPastDue Handler:'',
      ''subscription.paused'' \<mapsto> console_log ''Default SubscriptionPaused Handler:'',
      ''subscription.cancel'' \<mapsto> console_log ''Default SubscriptionCancel Handler:'']"

text \<open>\<^verbatim>\<open>userHandlers[eventType] = handler;\<close> The registry is passed and returned.\<close>

definition registerWebhookHandler ::
  "('p, 'z) registry \<Rightarrow> event_type \<Rightarrow> ('p, 'z) handler \<Rightarrow> ('p, 'z) registry" where
  "registerWebhookHandler handlers type handler = handlers(type_string type \<mapsto> handler)"

text \<open>
  \<^verbatim>\<open>userHandlers\<close> is an object literal, so the read
  \<^verbatim>\<open>userHandlers[event.eventType]\<close> that finds no own property goes on to
  \<^verbatim>\<open>Object.prototype\<close>. Its members, by what the call \<^verbatim>\<open>handler(event)\<close> does with
  them in a module (strict mode, \<^verbatim>\<open>this\<close> undefined): \<^verbatim>\<open>Object\<close>, the value of
  \<^verbatim>\<open>constructor\<close>, and \<^verbatim>\<open>toString\<close> return; the value of \<^verbatim>\<open>__proto__\<close> is
  \<^verbatim>\<open>Object.prototype\<close> itself, an object and no function, so the call throws a
  \<^verbatim>\<open>TypeError\<close>; every other member first converts \<^verbatim>\<open>this\<close> to an object and throws
  a \<^verbatim>\<open>TypeError\<close>. All of them are truthy. The messages are the engine's.
\<close>

datatype inherited = Returns | Not_a_function | Needs_this

definition Object_prototype :: "string \<Rightarrow> inherited option" where
  "Object_prototype =
     [''constructor'' \<mapsto> Returns,
      ''toString'' \<mapsto> Returns,
      ''__proto__'' \<mapsto> Not_a_function,
      ''toLocaleString'' \<mapsto> Needs_this,
      ''valueOf'' \<mapsto> Needs_this,
      ''hasOwnProperty'' \<mapsto> Needs_this,
      ''isPrototypeOf'' \<mapsto> Needs_this,
      ''propertyIsEnumerable'' \<mapsto> Needs_this,
      ''__defineGetter__'' \<mapsto> Needs_this,
      ''__defineSetter__'' \<mapsto> Needs_this,
      ''__lookupGetter__'' \<mapsto> Needs_this,
      ''__lookupSetter__'' \<mapsto> Needs_this]"

fun call_inherited :: "inherited \<Rightarrow> 'w \<Rightarrow> exn option \<times> 'w" where
  "call_inherited Returns w = (None, w)"
| "call_inherited Not_a_function w = (Some (Exn ''TypeError'' ''handler is not a function''), w)"
| "call_inherited Needs_this w =
     (Some (Exn ''TypeError'' ''Cannot convert undefined or null to object''), w)"

text \<open>
  \<^verbatim>\<open>const handler = userHandlers[event.eventType]; if (handler) { handler(event); }
  else { throw new Error(`No handler registered for event type: ${event.eventType}`); }\<close>
\<close>

definition handleWebhookEvent ::
  "('p, 'z) registry \<Rightarrow> 'p event \<Rightarrow> ('p, 'z) world_scheme \<Rightarrow> exn option \<times> ('p, 'z) world_scheme" where
  "handleWebhookEvent handlers event w =
     (case handlers (eventType event) of
        Some handler \<Rightarrow> handler event w
      | None \<Rightarrow>
          (case Object_prototype (eventType event) of
             Some member \<Rightarrow> call_inherited member w
           | None \<Rightarrow>
               (Some (Error (''No handler registered for event type: '' @ eventType event)), w)))"

section \<open>The webhook verifier\<close>

text \<open>
  The request headers, \<^verbatim>\<open>Record<string, string | string[] | undefined>\<close>, and the
  three of them handed to the library.
\<close>

datatype header_value = Single string | Multiple "string list"

type_synonym headers = "string \<Rightarrow> header_value option"

record svix_headers =
  svix_id :: "header_value option"
  svix_timestamp :: "header_value option"
  svix_signature :: "header_value option"

text \<open>
  The library \<^verbatim>\<open>svix\<close> is not part of the repository, so it is a parameter: the
  constructor \<^verbatim>\<open>new Webhook(secret)\<close> and the method \<^verbatim>\<open>verify(payload, headers)\<close>,
  each returning its result or the exception it throws. The calls made to it are
  recorded, in order.
\<close>

record ('wh, 'n) svix =
  Webhook :: "string \<Rightarrow> exn + 'wh"
  verify :: "'wh \<Rightarrow> string \<Rightarrow> svix_headers \<Rightarrow> exn + 'n json"

datatype svix_call = New_Webhook string | Verify string svix_headers

text \<open>
  \<open>signingSecret\<close> is the value of
  \<^verbatim>\<open>process.env.RECURRENTE_SVIX_SIGNING_SECRET\<close>: absent, or a string. The test
  \<^verbatim>\<open>!signingSecret\<close> holds for the absent and for the empty one. The constructor is
  called outside the \<^verbatim>\<open>try\<close>, \<^verbatim>\<open>verify\<close> and \<^verbatim>\<open>toCamelCase\<close> inside it.
\<close>

abbreviation svixHeaders_of :: "headers \<Rightarrow> svix_headers" where
  "svixHeaders_of headers \<equiv>
     \<lparr>svix_id = headers ''svix-id'',
      svix_timestamp = headers ''svix-timestamp'',
      svix_signature = headers ''svix-signature''\<rparr>"

definition verifySvixSignature ::
  "('wh, 'n) svix \<Rightarrow> string option \<Rightarrow> string \<Rightarrow> headers \<Rightarrow> svix_call list \<times> (exn + 'n json)" where
  "verifySvixSignature lib signingSecret payload headers =
     (case signingSecret of
        None \<Rightarrow> ([], Inl (Error ''Missing signing secret''))
      | Some secret \<Rightarrow>
          if secret = [] then ([], Inl (Error ''Missing signing secret''))
          else
            let svixHeaders = svixHeaders_of headers
            in (case Webhook lib secret of
                  Inl thrown \<Rightarrow> ([New_Webhook secret], Inl thrown)
                | Inr wh \<Rightarrow>
                    (case verify lib wh payload svixHeaders of
                       Inl error \<Rightarrow>
                         ([New_Webhook secret, Verify payload svixHeaders],
                          Inl (Error ''Invalid webhook signature''))
                     | Inr event \<Rightarrow>
                         ([New_Webhook secret, Verify payload svixHeaders],
                          Inr (toCamelCase event)))))"

text \<open>
  Two instances of the library for the examples below. Both throw when one of the three
  headers is missing. In \<open>svix_accepting p j\<close> the payload \<open>p\<close> carries a valid
  signature and parses to \<open>j\<close>; in \<open>svix_unparsable p\<close> the payload \<open>p\<close> carries a
  valid signature and \<^verbatim>\<open>JSON.parse\<close>, which \<^verbatim>\<open>verify\<close> calls last, throws on it.
  Every other payload fails the signature check.
\<close>

definition svix_accepting :: "string \<Rightarrow> 'n json \<Rightarrow> (unit, 'n) svix" where
  "svix_accepting p j =
     \<lparr>Webhook = (\<lambda>secret. Inr ()),
      verify = (\<lambda>wh payload hs.
        if svix_id hs = None \<or> svix_timestamp hs = None \<or> svix_signature hs = None
        then Inl (Exn ''WebhookVerificationError'' ''Missing required headers'')
        else if payload = p then Inr j
        else Inl (Exn ''WebhookVerificationError'' ''No matching signature found''))\<rparr>"

definition svix_unparsable :: "string \<Rightarrow> (unit, 'n) svix" where
  "svix_unparsable p =
     \<lparr>Webhook = (\<lambda>secret. Inr ()),
      verify = (\<lambda>wh payload hs.
        if svix_id hs = None \<or> svix_timestamp hs = None \<or> svix_signature hs = None
        then Inl (Exn ''WebhookVerificationError'' ''Missing required headers'')
        else if payload = p then Inl (Exn ''SyntaxError'' ''Unexpected end of JSON input'')
        else Inl (Exn ''WebhookVerificationError'' ''No matching signature found''))\<rparr>"

definition signed_headers :: headers where
  "signed_headers =
     [''svix-id'' \<mapsto> Single ''msg_1'',
      ''svix-timestamp'' \<mapsto> Single ''1700000000'',
      ''svix-signature'' \<mapsto> Single ''v1,c2lnbmF0dXJl'']"

definition no_headers :: headers where
  "no_headers = Map.empty"

section \<open>Characters and keys\<close>

lemma of_char_upper: "is_az d \<Longrightarrow> (of_char (toUpperCase_char d) :: nat) = of_char d - 32"
  by (auto simp add: toUpperCase_char_def is_az_def)

lemma of_char_lower_AZ: "is_AZ c \<Longrightarrow> (of_char (toLowerCase_char c) :: nat) = of_char c + 32"
  by (simp add: toLowerCase_char_def is_AZ_def Let_def)

lemma upper_is_AZ: "is_az d \<Longrightarrow> is_AZ (toUpperCase_char d)"
  by (simp add: is_AZ_def of_char_upper) (auto simp add: is_az_def)

lemma lower_is_az: "is_AZ c \<Longrightarrow> is_az (toLowerCase_char c)"
  by (simp add: is_az_def of_char_lower_AZ) (auto simp add: is_AZ_def)

lemma upper_lower: "is_AZ c \<Longrightarrow> toUpperCase_char (toLowerCase_char c) = c"
  by (rule of_char_eqI [where ?'a = nat]) (simp add: of_char_upper lower_is_az of_char_lower_AZ)

lemma lower_upper: "is_az d \<Longrightarrow> toLowerCase_char (toUpperCase_char d) = d"
  by (rule of_char_eqI [where ?'a = nat])
    (simp add: of_char_lower_AZ upper_is_AZ of_char_upper, auto simp add: is_az_def)

lemma lower_fix: "is_az c \<or> is_digit c \<or> c = CHR ''_'' \<Longrightarrow> toLowerCase_char c = c"
  by (auto simp: toLowerCase_char_def is_az_def is_digit_def Let_def)

lemma not_AZ: "is_az c \<or> is_digit c \<or> c = CHR ''_'' \<Longrightarrow> \<not> is_AZ c"
  by (auto simp: is_AZ_def is_az_def is_digit_def)

lemma not_underscore: "is_az c \<or> is_AZ c \<or> is_digit c \<Longrightarrow> c \<noteq> CHR ''_''"
  by (auto simp: is_AZ_def is_az_def is_digit_def)

lemma camelKey_Cons: "c \<noteq> CHR ''_'' \<Longrightarrow> camelKey (c # cs) = c # camelKey cs"
  by (cases cs) auto

lemma snakeKey_Nil: "snakeKey [] = []"
  by (simp add: snakeKey_def toLowerCase_def)

lemma snakeKey_Cons:
  "snakeKey (c # cs) =
     (if is_AZ c then CHR ''_'' # toLowerCase_char c # snakeKey cs else toLowerCase_char c # snakeKey cs)"
  by (simp add: snakeKey_def toLowerCase_def toLowerCase_char_def Let_def)

lemma camelKey_snakeKey: "concatenated_key k \<Longrightarrow> camelKey (snakeKey k) = k"
proof (induction k)
  case Nil
  then show ?case by (simp add: snakeKey_Nil)
next
  case (Cons c cs)
  then have IH: "camelKey (snakeKey cs) = cs" and c: "is_az c \<or> is_AZ c \<or> is_digit c"
    by (simp_all add: concatenated_key_def)
  show ?case
  proof (cases "is_AZ c")
    case True
    then show ?thesis
      by (simp add: snakeKey_Cons lower_is_az upper_lower IH)
  next
    case False
    with c have "toLowerCase_char c = c" by (auto intro: lower_fix)
    moreover have "c \<noteq> CHR ''_''" using c by (rule not_underscore)
    ultimately show ?thesis
      using False by (simp add: snakeKey_Cons camelKey_Cons IH)
  qed
qed

lemma snakeKey_camelKey:
  "list_all (\<lambda>c. is_az c \<or> is_digit c \<or> c = CHR ''_'') k \<Longrightarrow> snakeKey (camelKey k) = k"
proof (induction k rule: camelKey.induct)
  case 1
  then show ?case by (simp add: snakeKey_Nil)
next
  case (2 c)
  then show ?case by (simp add: snakeKey_Cons snakeKey_Nil not_AZ lower_fix)
next
  case (3 c d cs)
  show ?case
  proof (cases "c = CHR ''_'' \<and> is_az d")
    case True
    with 3 show ?thesis
      by (simp add: snakeKey_Cons upper_is_AZ lower_upper)
  next
    case False
    then have unfold: "camelKey (c # d # cs) = c # camelKey (d # cs)"
      by auto
    have c: "is_az c \<or> is_digit c \<or> c = CHR ''_''"
      using "3.prems" by simp
    have "snakeKey (camelKey (d # cs)) = d # cs"
      using False "3.IH"(2) "3.prems" by simp
    then show ?thesis
      using c by (simp only: unfold snakeKey_Cons not_AZ lower_fix if_False)
  qed
qed

lemma snakeKey_not_proto: "concatenated_key k \<Longrightarrow> snakeKey k \<noteq> ''__proto__''"
proof (cases k)
  case Nil
  then show ?thesis by (simp add: snakeKey_Nil)
next
  case (Cons c cs)
  assume "concatenated_key k"
  with Cons have c: "is_az c \<or> is_AZ c \<or> is_digit c" by (simp add: concatenated_key_def)
  show ?thesis
  proof (cases "is_AZ c")
    case True
    then have "is_az (toLowerCase_char c)" by (rule lower_is_az)
    then have "toLowerCase_char c \<noteq> CHR ''_''" by (auto simp: is_az_def)
    then show ?thesis using Cons True by (simp add: snakeKey_Cons)
  next
    case False
    with c have "toLowerCase_char c = c" by (auto intro: lower_fix)
    moreover have "c \<noteq> CHR ''_''" using c by (rule not_underscore)
    ultimately show ?thesis using Cons False by (simp add: snakeKey_Cons)
  qed
qed

lemma separated_not_proto: "separated_key k \<Longrightarrow> k \<noteq> ''__proto__''"
  by (auto simp: separated_key_def)

lemma camelKey_head:
  assumes "camelKey k = x # xs" and "\<not> is_AZ x"
  shows "\<exists>cs. k = x # cs \<and> camelKey cs = xs \<and> (x = CHR ''_'' \<longrightarrow> (\<forall>d ds. cs = d # ds \<longrightarrow> \<not> is_az d))"
proof (cases k rule: camelKey.cases)
  case 1
  with assms show ?thesis by simp
next
  case (2 c)
  with assms show ?thesis by simp
next
  case (3 c d cs)
  show ?thesis
  proof (cases "c = CHR ''_'' \<and> is_az d")
    case True
    with 3 assms(1) have "x = toUpperCase_char d" by simp
    with True assms(2) show ?thesis by (simp add: upper_is_AZ)
  next
    case False
    with 3 assms(1) show ?thesis by auto
  qed
qed

lemma camelKey_never_proto: "camelKey k \<noteq> ''__proto__''"
proof
  assume a: "camelKey k = ''__proto__''"
  have u: "\<not> is_AZ CHR ''_''" and p: "\<not> is_AZ CHR ''p''" and azp: "is_az CHR ''p''"
    by (simp_all add: is_AZ_def is_az_def)
  from camelKey_head [OF a u] obtain cs1 where 1: "k = CHR ''_'' # cs1" "camelKey cs1 = ''_proto__''"
    by auto
  from camelKey_head [OF 1(2) u] obtain cs2 where 2: "cs1 = CHR ''_'' # cs2" "camelKey cs2 = ''proto__''"
    "\<forall>d ds. cs2 = d # ds \<longrightarrow> \<not> is_az d"
    by auto
  from camelKey_head [OF 2(2) p] obtain cs3 where "cs2 = CHR ''p'' # cs3"
    by auto
  with 2(3) azp show False by simp
qed

text \<open>Properties of every key of a value.\<close>

lemma all_keys_always: "(\<And>k. P k) \<Longrightarrow> all_keys P v"
  by (induction P v rule: all_keys.induct) (simp_all add: list_all_iff)

lemma no_proto_key_camelKey: "no_proto_key camelKey v"
  unfolding no_proto_key_def by (rule all_keys_always) (rule camelKey_never_proto)

lemma all_keys_mono: "all_keys P v \<Longrightarrow> (\<And>k. P k \<Longrightarrow> Q k) \<Longrightarrow> all_keys Q v"
  by (induction P v rule: all_keys.induct) (auto simp: list_all_iff)

section \<open>The converters against the specification's converter\<close>

lemma put_own_fresh: "k \<notin> fst ` set obj \<Longrightarrow> put_own obj k v = obj @ [(k, v)]"
  by (induction obj) auto

lemma foldl_assign_fresh:
  assumes "distinct (map fst acc @ map (\<lambda>kv. f (fst kv)) kvs)"
    and "\<forall>kv \<in> set kvs. f (fst kv) \<noteq> ''__proto__''"
  shows "foldl (\<lambda>acc kv. assign acc (f (fst kv)) (g (snd kv), True)) (acc, True) kvs
           = (acc @ map (\<lambda>kv. (f (fst kv), g (snd kv))) kvs, True)"
  using assms
proof (induction kvs arbitrary: acc)
  case Nil
  then show ?case by simp
next
  case (Cons kv kvs)
  have fresh: "f (fst kv) \<notin> fst ` set acc"
    using Cons.prems(1) by auto
  have step: "assign (acc, True) (f (fst kv)) (g (snd kv), True) = (acc @ [(f (fst kv), g (snd kv))], True)"
    using Cons.prems(2) fresh by (simp add: put_own_fresh)
  have "distinct (map fst (acc @ [(f (fst kv), g (snd kv))]) @ map (\<lambda>kv. f (fst kv)) kvs)"
    using Cons.prems(1) by auto
  moreover have "\<forall>kv \<in> set kvs. f (fst kv) \<noteq> ''__proto__''"
    using Cons.prems(2) by simp
  ultimately show ?case
    using Cons.IH [of "acc @ [(f (fst kv), g (snd kv))]"] step by simp
qed

lemma toCamelCase_chain_obj:
  assumes "\<And>kv. kv \<in> set kvs \<Longrightarrow> toCamelCase_chain (snd kv) = (g (snd kv), True)"
  shows "toCamelCase_chain (JObj kvs) =
           (case foldl (\<lambda>acc kv. assign acc (camelKey (fst kv)) (g (snd kv), True)) ([], True) kvs of
              (own, chain) \<Rightarrow> (JObj own, chain))"
  using assms by (simp cong: foldl_cong)

lemma toSnakeCase_chain_obj:
  assumes "\<And>kv. kv \<in> set kvs \<Longrightarrow> toSnakeCase_chain (snd kv) = (g (snd kv), True)"
  shows "toSnakeCase_chain (JObj kvs) =
           (case foldl (\<lambda>acc kv. assign acc (snakeKey (fst kv)) (g (snd kv), True)) ([], True) kvs of
              (own, chain) \<Rightarrow> (JObj own, chain))"
  using assms by (simp cong: foldl_cong)

lemma toCamelCase_chain_rename:
  "no_key_clash camelKey v \<Longrightarrow> no_proto_key camelKey v \<Longrightarrow>
     toCamelCase_chain v = (rename_keys camelKey v, True)"
proof (induction v rule: toCamelCase_chain.induct)
  case (1 vs)
  then show ?case by (simp add: no_proto_key_def list_all_iff)
next
  case (2 kvs)
  have sub: "\<And>kv. kv \<in> set kvs \<Longrightarrow> toCamelCase_chain (snd kv) = (rename_keys camelKey (snd kv), True)"
    using 2 by (simp add: no_proto_key_def list_all_iff)
  have "foldl (\<lambda>acc kv. assign acc (camelKey (fst kv)) (rename_keys camelKey (snd kv), True)) ([], True) kvs
          = ([] @ map (\<lambda>kv. (camelKey (fst kv), rename_keys camelKey (snd kv))) kvs, True)"
    using "2.prems" by (intro foldl_assign_fresh) (simp_all add: no_proto_key_def list_all_iff)
  then show ?case
    using toCamelCase_chain_obj [OF sub] by simp
qed simp_all

lemma toSnakeCase_chain_rename:
  "no_key_clash snakeKey v \<Longrightarrow> no_proto_key snakeKey v \<Longrightarrow>
     toSnakeCase_chain v = (rename_keys snakeKey v, True)"
proof (induction v rule: toSnakeCase_chain.induct)
  case (1 vs)
  then show ?case by (simp add: no_proto_key_def list_all_iff)
next
  case (2 kvs)
  have sub: "\<And>kv. kv \<in> set kvs \<Longrightarrow> toSnakeCase_chain (snd kv) = (rename_keys snakeKey (snd kv), True)"
    using 2 by (simp add: no_proto_key_def list_all_iff)
  have "foldl (\<lambda>acc kv. assign acc (snakeKey (fst kv)) (rename_keys snakeKey (snd kv), True)) ([], True) kvs
          = ([] @ map (\<lambda>kv. (snakeKey (fst kv), rename_keys snakeKey (snd kv))) kvs, True)"
    using "2.prems" by (intro foldl_assign_fresh) (simp_all add: no_proto_key_def list_all_iff)
  then show ?case
    using toSnakeCase_chain_obj [OF sub] by simp
qed simp_all

lemma toCamelCase_rename:
  "no_key_clash camelKey v \<Longrightarrow> no_proto_key camelKey v \<Longrightarrow> toCamelCase v = rename_keys camelKey v"
  by (simp add: toCamelCase_def toCamelCase_chain_rename)

lemma toSnakeCase_rename:
  "no_key_clash snakeKey v \<Longrightarrow> no_proto_key snakeKey v \<Longrightarrow> toSnakeCase v = rename_keys snakeKey v"
  by (simp add: toSnakeCase_def toSnakeCase_chain_rename)

lemma distinct_renamed:
  assumes "distinct (map fst kvs)" and "\<And>kv. kv \<in> set kvs \<Longrightarrow> f (g (fst kv)) = fst kv"
  shows "distinct (map (\<lambda>kv. g (fst kv)) kvs)"
proof -
  have "inj_on g (set (map fst kvs))"
  proof (rule inj_onI)
    fix a b assume a: "a \<in> set (map fst kvs)" and b: "b \<in> set (map fst kvs)" and eq: "g a = g b"
    from a obtain p where p: "p \<in> set kvs" "a = fst p" by auto
    from b obtain q where q: "q \<in> set kvs" "b = fst q" by auto
    have fa: "f (g a) = a" unfolding p(2) using p(1) by (rule assms(2))
    have fb: "f (g b) = b" unfolding q(2) using q(1) by (rule assms(2))
    have "f (g a) = f (g b)" by (rule arg_cong [OF eq])
    then show "a = b" by (rule box_equals [OF _ fa fb])
  qed
  with assms(1) have "distinct (map g (map fst kvs))"
    by (simp only: distinct_map simp_thms)
  then show ?thesis by (simp only: map_map comp_def)
qed

lemma inverse_no_key_clash:
  "js_value v \<Longrightarrow> all_keys (\<lambda>k. f (g k) = k) v \<Longrightarrow> no_key_clash g v"
proof (induction v rule: js_value.induct)
  case (1 vs)
  then show ?case by (simp add: list_all_iff)
next
  case (2 kvs)
  have keys: "distinct (map fst kvs)"
    using "2.prems"(1) by simp
  have inv: "\<And>kv. kv \<in> set kvs \<Longrightarrow> f (g (fst kv)) = fst kv"
    using "2.prems"(2) by (simp add: list_all_iff)
  have d: "distinct (map (\<lambda>kv. g (fst kv)) kvs)"
    using keys inv by (rule distinct_renamed)
  have "\<And>kv. kv \<in> set kvs \<Longrightarrow> no_key_clash g (snd kv)"
  proof -
    fix kv assume kv: "kv \<in> set kvs"
    have "js_value (snd kv)" using "2.prems"(1) kv by (simp add: list_all_iff)
    moreover have "all_keys (\<lambda>k. f (g k) = k) (snd kv)"
      using "2.prems"(2) kv by (simp add: list_all_iff)
    ultimately show "no_key_clash g (snd kv)" using kv by (rule "2.IH" [rotated])
  qed
  with d show ?case by (simp add: list_all_iff)
qed simp_all

lemma inverse_no_key_clash_back:
  "js_value v \<Longrightarrow> all_keys (\<lambda>k. f (g k) = k) v \<Longrightarrow> no_key_clash f (rename_keys g v)"
proof (induction v rule: js_value.induct)
  case (1 vs)
  then show ?case by (simp add: list_all_iff)
next
  case (2 kvs)
  have eq: "map (\<lambda>kv. f (g (fst kv))) kvs = map fst kvs"
    using "2.prems"(2) by (simp add: list_all_iff)
  have "distinct (map fst kvs)"
    using "2.prems"(1) by simp
  then have d: "distinct (map (\<lambda>kv. f (g (fst kv))) kvs)"
    by (simp only: eq)
  have "\<And>kv. kv \<in> set kvs \<Longrightarrow> no_key_clash f (rename_keys g (snd kv))"
    using 2 by (simp add: list_all_iff)
  with d show ?case by (simp add: list_all_iff comp_def)
qed simp_all

lemma no_proto_key_rename:
  "no_proto_key f (rename_keys g v) = all_keys (\<lambda>k. f (g k) \<noteq> ''__proto__'') v"
  unfolding no_proto_key_def
  by (induction g v rule: rename_keys.induct) (simp_all add: list_all_iff)

lemma rename_keys_inverse:
  "all_keys (\<lambda>k. f (g k) = k) v \<Longrightarrow> rename_keys f (rename_keys g v) = v"
  by (induction g v rule: rename_keys.induct) (simp_all add: list_all_iff map_idI)

lemma convert_back:
  assumes v: "js_value v"
    and inv: "all_keys (\<lambda>k. f (g k) = k) v"
    and there: "all_keys (\<lambda>k. g k \<noteq> ''__proto__'') v"
    and ret: "all_keys (\<lambda>k. f (g k) \<noteq> ''__proto__'') v"
  shows "no_key_clash g v" "no_proto_key g v"
    "no_key_clash f (rename_keys g v)" "no_proto_key f (rename_keys g v)"
    "rename_keys f (rename_keys g v) = v"
proof -
  show "no_key_clash g v" using v inv by (rule inverse_no_key_clash)
  show "no_proto_key g v" using there by (simp add: no_proto_key_def)
  show "no_key_clash f (rename_keys g v)" using v inv by (rule inverse_no_key_clash_back)
  show "no_proto_key f (rename_keys g v)" using ret by (simp add: no_proto_key_rename)
  show "rename_keys f (rename_keys g v) = v" using inv by (rule rename_keys_inverse)
qed

lemma sep_back: "separated_key k \<Longrightarrow> snakeKey (camelKey k) \<noteq> ''__proto__''"
proof -
  assume k: "separated_key k"
  then have "snakeKey (camelKey k) = k" by (simp add: separated_key_def snakeKey_camelKey)
  moreover have "k \<noteq> ''__proto__''" using k by (rule separated_not_proto)
  ultimately show ?thesis by simp
qed

section \<open>Properties of the dispatcher\<close>

lemma handled_by_entry:
  "handlers (eventType event) = Some handler \<Longrightarrow> handleWebhookEvent handlers event w = handler event w"
  by (simp add: handleWebhookEvent_def)

lemma type_string_not_inherited: "Object_prototype (type_string t) = None"
  by (cases t) (simp_all add: Object_prototype_def)

lemma unknown_type_throws:
  assumes "handlers (eventType event) = None" and "Object_prototype (eventType event) = None"
  shows "handleWebhookEvent handlers event w =
           (Some (Error (''No handler registered for event type: '' @ eventType event)), w)"
  using assms by (simp add: handleWebhookEvent_def)

lemma unknown_type_throws_example:
  "handleWebhookEvent userHandlers \<lparr>eventType = ''invoice.paid'', details = d\<rparr> w
     = (Some (Error ''No handler registered for event type: invoice.paid''), w)"
  by (simp add: handleWebhookEvent_def userHandlers_def Object_prototype_def)

text \<open>
  C1, which the code breaks: an event of a type for which no handler is registered should
  make \<^verbatim>\<open>handleWebhookEvent\<close> throw the error that names the type, with no handler
  invoked. The initial registry has no entry for the type \<^verbatim>\<open>toString\<close>; the read
  finds \<^verbatim>\<open>Object.prototype.toString\<close>, the call returns, and \<^verbatim>\<open>handleWebhookEvent\<close>
  returns normally. For the type \<^verbatim>\<open>__proto__\<close> it throws a \<^verbatim>\<open>TypeError\<close> that does
  not name the type.
\<close>

theorem inherited_member_taken_for_handler:
  fixes w :: "('p, 'z) world_scheme"
  shows "(userHandlers :: ('p, 'z) registry) ''toString'' = None \<and>
     handleWebhookEvent userHandlers \<lparr>eventType = ''toString'', details = d\<rparr> w = (None, w) \<and>
     (userHandlers :: ('p, 'z) registry) ''__proto__'' = None \<and>
     handleWebhookEvent userHandlers \<lparr>eventType = ''__proto__'', details = d\<rparr> w
       = (Some (Exn ''TypeError'' ''handler is not a function''), w)"
  by (simp add: handleWebhookEvent_def userHandlers_def Object_prototype_def)

text \<open>
  C2: in the initial registry every one of the six event types is mapped to a handler that
  logs to the console, so \<^verbatim>\<open>handleWebhookEvent\<close> on any event of one of these types runs
  that handler and returns without throwing.
\<close>

theorem default_handlers:
  fixes w :: "('p, 'z) world_scheme"
  shows "\<exists>label. userHandlers (type_string t) = Some (console_log label :: ('p, 'z) handler) \<and>
     handleWebhookEvent userHandlers \<lparr>eventType = type_string t, details = d\<rparr> w
       = (None, w\<lparr>console := console w @ [(label, \<lparr>eventType = type_string t, details = d\<rparr>)]\<rparr>)"
proof -
  obtain label :: string
    where l: "userHandlers (type_string t) = Some (console_log label :: ('p, 'z) handler)"
    by (cases t) (simp_all add: userHandlers_def)
  then have "handleWebhookEvent userHandlers \<lparr>eventType = type_string t, details = d\<rparr> w
      = console_log label \<lparr>eventType = type_string t, details = d\<rparr> w"
    by (simp add: handled_by_entry)
  with l show ?thesis
    by (auto simp add: console_log_def)
qed

theorem default_handlers_witness:
  "handleWebhookEvent userHandlers \<lparr>eventType = ''subscription.cancel'', details = ''cus_1''\<rparr> \<lparr>console = []\<rparr>
     = (None, \<lparr>console = [(''Default SubscriptionCancel Handler:'',
                              \<lparr>eventType = ''subscription.cancel'', details = ''cus_1''\<rparr>)]\<rparr>)"
proof -
  let ?e = "\<lparr>eventType = ''subscription.cancel'', details = ''cus_1''\<rparr>"
  let ?w = "\<lparr>console = []\<rparr> :: string world"
  from default_handlers [where t = Subscription_cancel and d = "''cus_1''" and w = ?w] obtain label
    where entry: "userHandlers ''subscription.cancel'' = Some (console_log label :: (string, unit) handler)"
      and run: "handleWebhookEvent userHandlers ?e ?w = (None, \<lparr>console = [(label, ?e)]\<rparr>)"
    by auto
  from entry have "console_log label ?e ?w = console_log ''Default SubscriptionCancel Handler:'' ?e ?w"
    by (simp add: userHandlers_def)
  then have "label = ''Default SubscriptionCancel Handler:''"
    by (simp add: console_log_def)
  with run show ?thesis by simp
qed

text \<open>
  C3: after two registrations for the same type, an event of that type is handled by the
  second handler, whatever the first one was; registering returns the new registry and
  cannot fail.
\<close>

theorem last_registration_wins:
  assumes "eventType event = type_string t"
  shows "handleWebhookEvent (registerWebhookHandler (registerWebhookHandler handlers t h1) t h2) event w
           = h2 event w"
  using assms by (simp add: handleWebhookEvent_def registerWebhookHandler_def)

theorem last_registration_wins_witness:
  "handleWebhookEvent
     (registerWebhookHandler
        (registerWebhookHandler userHandlers Payment_intent_succeeded (console_log ''h1''))
        Payment_intent_succeeded (console_log ''h2''))
     \<lparr>eventType = ''payment_intent.succeeded'', details = ''pa_1''\<rparr> \<lparr>console = []\<rparr>
   = (None, \<lparr>console = [(''h2'', \<lparr>eventType = ''payment_intent.succeeded'', details = ''pa_1''\<rparr>)]\<rparr>)"
  using last_registration_wins [of "\<lparr>eventType = ''payment_intent.succeeded'', details = ''pa_1''\<rparr>"
      Payment_intent_succeeded userHandlers "console_log ''h1''" "console_log ''h2''" "\<lparr>console = []\<rparr>"]
  by (simp add: console_log_def)

text \<open>
  C8: when the registry has a handler for the event's type, \<^verbatim>\<open>handleWebhookEvent\<close> is
  that handler applied to the event: it returns normally exactly when the handler does,
  and an exception of the handler leaves the dispatcher as the handler threw it.
\<close>

theorem registered_handler_runs:
  assumes "handlers (eventType event) = Some handler"
  shows "handleWebhookEvent handlers event w = handler event w \<and>
         (fst (handleWebhookEvent handlers event w) = None \<longleftrightarrow> fst (handler event w) = None) \<and>
         (\<forall>x. fst (handler event w) = Some x \<longrightarrow> fst (handleWebhookEvent handlers event w) = Some x)"
  using assms by (simp add: handled_by_entry)

theorem registered_handler_runs_witness:
  "handleWebhookEvent
     (registerWebhookHandler userHandlers Subscription_paused (\<lambda>event w. (Some (Exn ''TypeError'' ''boom''), w)))
     \<lparr>eventType = ''subscription.paused'', details = ''su_1''\<rparr> \<lparr>console = []\<rparr>
   = (Some (Exn ''TypeError'' ''boom''), \<lparr>console = []\<rparr>)"
  using registered_handler_runs [of
      "registerWebhookHandler userHandlers Subscription_paused (\<lambda>event w. (Some (Exn ''TypeError'' ''boom''), w))"
      "\<lparr>eventType = ''subscription.paused'', details = ''su_1''\<rparr>"
      "\<lambda>event w. (Some (Exn ''TypeError'' ''boom''), w)" "\<lparr>console = []\<rparr>"]
  by (simp add: registerWebhookHandler_def)

section \<open>Properties of the verifier\<close>

lemma verify_failure:
  assumes "secret \<noteq> []" and "Webhook lib secret = Inr wh"
    and "verify lib wh payload (svixHeaders_of headers) = Inl thrown"
  shows "verifySvixSignature lib (Some secret) payload headers =
           ([New_Webhook secret, Verify payload (svixHeaders_of headers)],
            Inl (Error ''Invalid webhook signature''))"
  using assms by (simp add: verifySvixSignature_def)

lemma verify_success:
  assumes "secret \<noteq> []" and "Webhook lib secret = Inr wh"
    and "verify lib wh payload (svixHeaders_of headers) = Inr parsed"
  shows "verifySvixSignature lib (Some secret) payload headers =
           ([New_Webhook secret, Verify payload (svixHeaders_of headers)], Inr (toCamelCase parsed))"
  using assms by (simp add: verifySvixSignature_def)

text \<open>
  C7: with no signing secret in the configuration (the variable absent, or empty),
  \<^verbatim>\<open>verifySvixSignature\<close> throws \<^verbatim>\<open>Missing signing secret\<close> whatever the payload, the
  headers and the library are, and no call to the library has been made.
\<close>

theorem missing_secret:
  "verifySvixSignature lib None payload headers = ([], Inl (Error ''Missing signing secret'')) \<and>
   verifySvixSignature lib (Some []) payload headers = ([], Inl (Error ''Missing signing secret''))"
  by (simp add: verifySvixSignature_def)

theorem missing_secret_witness:
  "verifySvixSignature (svix_accepting ''{}'' (JObj [] :: int json)) None ''{}'' signed_headers
     = ([], Inl (Error ''Missing signing secret''))"
  using missing_secret [of "svix_accepting ''{}'' (JObj [] :: int json)" "''{}''" signed_headers]
  by simp

text \<open>
  C5: whatever exception the library's \<^verbatim>\<open>verify\<close> throws (no matching signature, a
  timestamp out of tolerance, missing or malformed headers), \<^verbatim>\<open>verifySvixSignature\<close>
  throws the one error \<^verbatim>\<open>Invalid webhook signature\<close>, in which nothing of the
  library's exception is left.
\<close>

theorem verification_failure_is_generic:
  assumes "secret \<noteq> []" and "Webhook lib secret = Inr wh"
    and "verify lib wh payload (svixHeaders_of headers) = Inl thrown"
  shows "snd (verifySvixSignature lib (Some secret) payload headers) = Inl (Error ''Invalid webhook signature'')"
  using verify_failure [OF assms] by simp

theorem verification_failure_is_generic_witness:
  "snd (verifySvixSignature (svix_accepting ''{}'' (JObj [] :: int json)) (Some ''whsec_test'') ''{ }''
          signed_headers)
     = Inl (Error ''Invalid webhook signature'')"
  using verification_failure_is_generic [of "''whsec_test''" "svix_accepting ''{}'' (JObj [] :: int json)" "()"
      "''{ }''" signed_headers "Exn ''WebhookVerificationError'' ''No matching signature found''"]
  by (simp add: svix_accepting_def signed_headers_def)

section \<open>Properties of the converters\<close>

text \<open>
  C9: on a value (each of its objects holding each key once) whose keys all follow the
  concatenated convention, \<^verbatim>\<open>toSnakeCase\<close> followed by \<^verbatim>\<open>toCamelCase\<close> gives the
  value back; on a value whose keys all follow the separator convention,
  \<^verbatim>\<open>toCamelCase\<close> followed by \<^verbatim>\<open>toSnakeCase\<close> gives the value back.
\<close>

theorem round_trip:
  "(js_value x \<and> all_keys concatenated_key x \<longrightarrow> toCamelCase (toSnakeCase x) = x) \<and>
   (js_value x \<and> all_keys separated_key x \<longrightarrow> toSnakeCase (toCamelCase x) = x)"
proof (intro conjI impI)
  assume "js_value x \<and> all_keys concatenated_key x"
  then have x: "js_value x" and keys: "all_keys concatenated_key x"
    by simp_all
  have inv: "all_keys (\<lambda>k. camelKey (snakeKey k) = k) x"
    using keys by (rule all_keys_mono) (rule camelKey_snakeKey)
  have there: "all_keys (\<lambda>k. snakeKey k \<noteq> ''__proto__'') x"
    using keys by (rule all_keys_mono) (rule snakeKey_not_proto)
  have ret: "all_keys (\<lambda>k. camelKey (snakeKey k) \<noteq> ''__proto__'') x"
    by (rule all_keys_always) (rule camelKey_never_proto)
  note cb = convert_back [OF x inv there ret]
  have "toSnakeCase x = rename_keys snakeKey x"
    using cb(1,2) by (rule toSnakeCase_rename)
  moreover have "toCamelCase (rename_keys snakeKey x) = rename_keys camelKey (rename_keys snakeKey x)"
    using cb(3,4) by (rule toCamelCase_rename)
  ultimately show "toCamelCase (toSnakeCase x) = x"
    using cb(5) by simp
next
  assume "js_value x \<and> all_keys separated_key x"
  then have x: "js_value x" and keys: "all_keys separated_key x"
    by simp_all
  have inv: "all_keys (\<lambda>k. snakeKey (camelKey k) = k) x"
    using keys by (rule all_keys_mono) (simp add: separated_key_def snakeKey_camelKey)
  have there: "all_keys (\<lambda>k. camelKey k \<noteq> ''__proto__'') x"
    by (rule all_keys_always) (rule camelKey_never_proto)
  have ret: "all_keys (\<lambda>k. snakeKey (camelKey k) \<noteq> ''__proto__'') x"
    using keys by (rule all_keys_mono) (rule sep_back)
  note cb = convert_back [OF x inv there ret]
  have "toCamelCase x = rename_keys camelKey x"
    using cb(1,2) by (rule toCamelCase_rename)
  moreover have "toSnakeCase (rename_keys camelKey x) = rename_keys snakeKey (rename_keys camelKey x)"
    using cb(3,4) by (rule toSnakeCase_rename)
  ultimately show "toSnakeCase (toCamelCase x) = x"
    using cb(5) by simp
qed

theorem round_trip_witness:
  "toCamelCase (toSnakeCase
     (JObj [(''customerId'', JStr ''cus_1''),
            (''pricesAttributes'', JArr [JObj [(''amountInCents'', JNum (1000::int))], JNull])]))
   = JObj [(''customerId'', JStr ''cus_1''),
           (''pricesAttributes'', JArr [JObj [(''amountInCents'', JNum 1000)], JNull])] \<and>
   toSnakeCase (toCamelCase
     (JObj [(''customer_id'', JStr ''cus_1''),
            (''prices_attributes'', JArr [JObj [(''amount_in_cents'', JNum (1000::int))], JNull])]))
   = JObj [(''customer_id'', JStr ''cus_1''),
           (''prices_attributes'', JArr [JObj [(''amount_in_cents'', JNum 1000)], JNull])]"
proof -
  let ?c = "JObj [(''customerId'', JStr ''cus_1''),
            (''pricesAttributes'', JArr [JObj [(''amountInCents'', JNum (1000::int))], JNull])]"
  let ?s = "JObj [(''customer_id'', JStr ''cus_1''),
            (''prices_attributes'', JArr [JObj [(''amount_in_cents'', JNum (1000::int))], JNull])]"
  have c: "js_value ?c \<and> all_keys concatenated_key ?c"
    by code_simp
  have s: "js_value ?s \<and> all_keys separated_key ?s"
    by code_simp
  from c s round_trip [of ?c] round_trip [of ?s] show ?thesis
    by blast
qed

text \<open>
  C10, as amended: on a value in which no two keys of one object are renamed to the same
  key, \<^verbatim>\<open>toCamelCase\<close> returns the value of the same shape and the same leaves with every
  key renamed by the key transform; so does \<^verbatim>\<open>toSnakeCase\<close> when, in addition, no key is
  renamed to \<^verbatim>\<open>__proto__\<close>.
\<close>

theorem converters_rename_every_key:
  "(no_key_clash camelKey v \<longrightarrow> toCamelCase v = rename_keys camelKey v) \<and>
   (no_key_clash snakeKey v \<and> no_proto_key snakeKey v \<longrightarrow> toSnakeCase v = rename_keys snakeKey v)"
  by (simp add: toCamelCase_rename toSnakeCase_rename no_proto_key_camelKey)

theorem converters_rename_every_key_witness:
  "toCamelCase (JObj [(''event_type'', JStr ''subscription.cancel''),
                      (''line_items'', JArr [JObj [(''unit_price'', JNum (5::int))], JBool True])])
   = JObj [(''eventType'', JStr ''subscription.cancel''),
           (''lineItems'', JArr [JObj [(''unitPrice'', JNum 5)], JBool True])] \<and>
   toSnakeCase (JObj [(''eventType'', JStr ''subscription.cancel''),
                      (''lineItems'', JArr [JObj [(''unitPrice'', JNum (5::int))], JBool True])])
   = JObj [(''event_type'', JStr ''subscription.cancel''),
           (''line_items'', JArr [JObj [(''unit_price'', JNum 5)], JBool True])]"
proof -
  let ?s = "JObj [(''event_type'', JStr ''subscription.cancel''),
                  (''line_items'', JArr [JObj [(''unit_price'', JNum (5::int))], JBool True])]"
  let ?c = "JObj [(''eventType'', JStr ''subscription.cancel''),
                  (''lineItems'', JArr [JObj [(''unitPrice'', JNum (5::int))], JBool True])]"
  have 1: "no_key_clash camelKey ?s"
    by code_simp
  have 2: "no_key_clash snakeKey ?c \<and> no_proto_key snakeKey ?c"
    by code_simp
  have 3: "rename_keys camelKey ?s = ?c"
    by code_simp
  have 4: "rename_keys snakeKey ?c = ?s"
    by code_simp
  from 1 2 converters_rename_every_key [of ?s] converters_rename_every_key [of ?c]
  have "toCamelCase ?s = rename_keys camelKey ?s" and "toSnakeCase ?c = rename_keys snakeKey ?c"
    by blast+
  with 3 4 show ?thesis
    by (simp only:)
qed

theorem converters_rename_every_key_counterexample:
  "toCamelCase (JObj [(''a_b'', JNum (1::int)), (''aB'', JNum 2)]) = JObj [(''aB'', JNum 2)] \<and>
   rename_keys camelKey (JObj [(''a_b'', JNum (1::int)), (''aB'', JNum 2)])
     = JObj [(''aB'', JNum 1), (''aB'', JNum 2)] \<and>
   toSnakeCase (JObj [(''_Proto__'', JNum (1::int))]) = JObj [] \<and>
   rename_keys snakeKey (JObj [(''_Proto__'', JNum (1::int))]) = JObj [(''__proto__'', JNum 1)]"
  by code_simp

section \<open>Properties of the verifier on accepted payloads\<close>

lemma map_of_renamed:
  assumes "distinct (map (\<lambda>kv. f (fst kv)) kvs)" and "map_of kvs k = Some v"
  shows "map_of (map (\<lambda>kv. (f (fst kv), g (snd kv))) kvs) (f k) = Some (g v)"
  using assms
proof (induction kvs)
  case Nil
  then show ?case by simp
next
  case (Cons kv kvs)
  show ?case
  proof (cases "fst kv = k")
    case True
    with Cons.prems(2) show ?thesis by (cases kv) simp
  next
    case False
    with Cons.prems(2) have tail: "map_of kvs k = Some v"
      by (cases kv) (simp split: if_splits)
    then have "(k, v) \<in> set kvs"
      by (rule map_of_SomeD)
    then have "f k \<in> (\<lambda>kv. f (fst kv)) ` set kvs"
      by force
    moreover have "f (fst kv) \<notin> (\<lambda>kv. f (fst kv)) ` set kvs"
      using Cons.prems(1) by simp
    ultimately have "f (fst kv) \<noteq> f k"
      by metis
    moreover have "map_of (map (\<lambda>kv. (f (fst kv), g (snd kv))) kvs) (f k) = Some (g v)"
      using Cons.prems(1) tail by (intro Cons.IH) simp_all
    ultimately show ?thesis by simp
  qed
qed

lemma camelKey_event_type: "camelKey ''event_type'' = ''eventType''"
  by code_simp

lemma eventType_renamed:
  assumes "no_key_clash camelKey parsed" and "own_property parsed ''event_type'' = Some (JStr t)"
  shows "own_property (rename_keys camelKey parsed) ''eventType'' = Some (JStr t)"
proof (cases parsed)
  case (JObj kvs)
  with assms have "distinct (map (\<lambda>kv. camelKey (fst kv)) kvs)" and "map_of kvs ''event_type'' = Some (JStr t)"
    by simp_all
  then have "map_of (map (\<lambda>kv. (camelKey (fst kv), rename_keys camelKey (snd kv))) kvs) (camelKey ''event_type'')
      = Some (rename_keys camelKey (JStr t))"
    by (rule map_of_renamed)
  with JObj show ?thesis
    unfolding camelKey_event_type by simp
qed (use assms in simp_all)

text \<open>
  C4, as amended: when the library accepts the secret, the payload and the headers, and no
  two keys of one object of the parsed payload convert to the same key,
  \<^verbatim>\<open>verifySvixSignature\<close> returns the parsed payload with every key converted by the
  snake-to-camel key transform, and the \<^verbatim>\<open>eventType\<close> of what it returns is the
  \<^verbatim>\<open>event_type\<close> the payload declares.
\<close>

theorem verified_event_is_converted:
  assumes "secret \<noteq> []" and "Webhook lib secret = Inr wh"
    and "verify lib wh payload (svixHeaders_of headers) = Inr parsed"
    and "no_key_clash camelKey parsed"
  shows "snd (verifySvixSignature lib (Some secret) payload headers) = Inr (rename_keys camelKey parsed) \<and>
         (\<forall>t. own_property parsed ''event_type'' = Some (JStr t) \<longrightarrow>
              own_property (rename_keys camelKey parsed) ''eventType'' = Some (JStr t))"
proof -
  have "toCamelCase parsed = rename_keys camelKey parsed"
    using assms(4) no_proto_key_camelKey by (rule toCamelCase_rename)
  then have "snd (verifySvixSignature lib (Some secret) payload headers) = Inr (rename_keys camelKey parsed)"
    using verify_success [OF assms(1-3)] by simp
  then show ?thesis
    using assms(4) by (simp add: eventType_renamed)
qed

theorem verified_event_is_converted_witness:
  \<open>snd (verifySvixSignature
          (svix_accepting ''{"event_type":"subscription.cancel","customer_id":"cus_1"}''
             (JObj [(''event_type'', JStr ''subscription.cancel''), (''customer_id'', JStr ''cus_1'')] :: int json))
          (Some ''whsec_test'')
          ''{"event_type":"subscription.cancel","customer_id":"cus_1"}'' signed_headers)
     = Inr (JObj [(''eventType'', JStr ''subscription.cancel''), (''customerId'', JStr ''cus_1'')]) \<and>
   own_property (JObj [(''eventType'', JStr ''subscription.cancel''), (''customerId'', JStr ''cus_1'')] :: int json)
     ''eventType'' = Some (JStr ''subscription.cancel'')\<close>
proof -
  let ?p = \<open>''{"event_type":"subscription.cancel","customer_id":"cus_1"}''\<close>
  let ?j = "JObj [(''event_type'', JStr ''subscription.cancel''), (''customer_id'', JStr ''cus_1'')] :: int json"
  have 1: "Webhook (svix_accepting ?p ?j) ''whsec_test'' = Inr ()"
    by (simp add: svix_accepting_def)
  have 2: "verify (svix_accepting ?p ?j) () ?p (svixHeaders_of signed_headers) = Inr ?j"
    by (simp add: svix_accepting_def signed_headers_def)
  have 3: "no_key_clash camelKey ?j"
    by code_simp
  have 4: "rename_keys camelKey ?j
             = JObj [(''eventType'', JStr ''subscription.cancel''), (''customerId'', JStr ''cus_1'')]"
    by code_simp
  have 5: "own_property ?j ''event_type'' = Some (JStr ''subscription.cancel'')"
    by simp
  have "''whsec_test'' \<noteq> []"
    by simp
  from verified_event_is_converted [OF this 1 2 3] 5 show ?thesis
    unfolding 4 by blast
qed

theorem verified_event_is_converted_counterexample:
  \<open>snd (verifySvixSignature
          (svix_accepting ''{"event_type":"subscription.cancel","eventType":"payment_intent.failed"}''
             (JObj [(''event_type'', JStr ''subscription.cancel''),
                    (''eventType'', JStr ''payment_intent.failed'')] :: int json))
          (Some ''whsec_test'')
          ''{"event_type":"subscription.cancel","eventType":"payment_intent.failed"}'' signed_headers)
     = Inr (JObj [(''eventType'', JStr ''payment_intent.failed'')]) \<and>
   own_property (JObj [(''event_type'', JStr ''subscription.cancel''),
                       (''eventType'', JStr ''payment_intent.failed'')] :: int json) ''event_type''
     = Some (JStr ''subscription.cancel'')\<close>
  by code_simp

text \<open>
  C6, as amended: when the signature is valid and the payload does not parse (the library's
  \<^verbatim>\<open>verify\<close> throws the parser's \<^verbatim>\<open>SyntaxError\<close>), \<^verbatim>\<open>verifySvixSignature\<close> throws
  \<^verbatim>\<open>Invalid webhook signature\<close>, the error it throws when the verification fails.
\<close>

theorem unparsable_payload_is_invalid_signature:
  assumes "secret \<noteq> []" and "Webhook lib secret = Inr wh"
    and "verify lib wh payload (svixHeaders_of headers) = Inl (Exn ''SyntaxError'' msg)"
  shows "snd (verifySvixSignature lib (Some secret) payload headers) = Inl (Error ''Invalid webhook signature'')"
  using verify_failure [OF assms] by simp

theorem unparsable_payload_is_invalid_signature_witness:
  "snd (verifySvixSignature (svix_unparsable ''{'' :: (unit, int) svix) (Some ''whsec_test'') ''{'' signed_headers)
     = Inl (Error ''Invalid webhook signature'')"
  using unparsable_payload_is_invalid_signature [of "''whsec_test''" "svix_unparsable ''{'' :: (unit, int) svix"
      "()" "''{''" signed_headers "''Unexpected end of JSON input''"]
  by (simp add: svix_unparsable_def signed_headers_def)

theorem unparsable_payload_counterexample:
  "verify (svix_unparsable ''{'' :: (unit, int) svix) () ''{'' (svixHeaders_of signed_headers)
     = Inl (Exn ''SyntaxError'' ''Unexpected end of JSON input'') \<and>
   verify (svix_unparsable ''{'' :: (unit, int) svix) () ''{}'' (svixHeaders_of signed_headers)
     = Inl (Exn ''WebhookVerificationError'' ''No matching signature found'') \<and>
   snd (verifySvixSignature (svix_unparsable ''{'' :: (unit, int) svix) (Some ''whsec_test'') ''{'' signed_headers)
     = Inl (Error ''Invalid webhook signature'') \<and>
   snd (verifySvixSignature (svix_unparsable ''{'' :: (unit, int) svix) (Some ''whsec_test'') ''{}'' signed_headers)
     = Inl (Error ''Invalid webhook signature'')"
  by (simp add: verifySvixSignature_def svix_unparsable_def signed_headers_def)

end
